theory Spec2Isabelle
  imports Main
begin

section \<open>The ChatRoom coordinator: data model\<close>

text \<open>
  The room coordinator is the class \<open>ChatRoom\<close>. Its state is the array \<open>this.sessions\<close>
  of server-side WebSocket objects and the JavaScript \<open>Map\<close> \<open>this.participants\<close>. The
  handlers registered by \<open>handleWebSocket\<close> contain no \<open>await\<close>, so each runs to
  completion on the state; a handler is modelled as a function from the state before to
  the state after, the list of \<open>send\<close> calls it made (in order) and the exception that
  ended it, if any. The exception of an \<open>async\<close> listener is the rejection of the promise
  the listener returns.
\<close>

text \<open>A WebSocket object is identified by its reference.\<close>

type_synonym ws = nat

datatype readyState = CONNECTING | OPEN | CLOSING | CLOSED

text \<open>
  JavaScript values as \<open>JSON.parse\<close> produces them, and \<open>undefined\<close> for an absent
  property. \<open>JNum\<close> stands for a number: the handlers never compute with numbers, they
  only compare them and test them for zero, so an integer stands in for the double.
  \<open>JObj\<close> lists the own properties of the parsed object, each key once.
\<close>

datatype jsval =
    JUndefined
  | JNull
  | JBool bool
  | JNum int
  | JStr string
  | JArr "jsval list"
  | JObj "(string \<times> jsval) list"

text \<open>\<open>event.data\<close> after \<open>JSON.parse\<close>: the call throws a SyntaxError, or returns a value.\<close>

datatype frame = Unparseable | Parsed jsval

datatype error = SyntaxError | TypeError

text \<open>The value stored in \<open>this.participants\<close>: \<open>{ ws, userName, trackInfo }\<close>.\<close>

record pdata =
  ws :: ws
  userName :: jsval
  trackInfo :: jsval

record room =
  sessions :: "ws list"
  participants :: "(jsval \<times> pdata) list"

text \<open>
  The objects handed to \<open>JSON.stringify\<close> and \<open>send\<close>. \<open>ParticipantJoined\<close> carries
  \<open>sessionId\<close>, \<open>userName\<close>, \<open>trackInfo\<close>; an entry of \<open>ExistingParticipants\<close> carries
  the same three fields; \<open>ParticipantLeft\<close> carries \<open>sessionId\<close>.
\<close>

datatype outmsg =
    ParticipantJoined jsval jsval jsval
  | ExistingParticipants "(jsval \<times> jsval \<times> jsval) list"
  | ParticipantLeft jsval

record outcome =
  state :: room
  sent :: "(ws \<times> outmsg) list"
  thrown :: "error option"

section \<open>JavaScript primitives used by the handlers\<close>

text \<open>Arrays and objects are compared by reference, everything else by value.\<close>

fun is_ref :: "jsval \<Rightarrow> bool" where
  "is_ref (JArr _) = True"
| "is_ref (JObj _) = True"
| "is_ref _ = False"

fun is_str :: "jsval \<Rightarrow> bool" where
  "is_str (JStr _) = True"
| "is_str _ = False"

text \<open>
  \<open>a === b\<close>, and the key comparison of \<open>Map\<close>, between a value held in the registry and
  the value of the message being handled, or between two values of different messages.
  Two arrays or objects met this way are different references, since every
  \<open>JSON.parse\<close> allocates its own.
\<close>

definition same_value :: "jsval \<Rightarrow> jsval \<Rightarrow> bool" where
  "same_value a b = (\<not> is_ref a \<and> a = b)"

text \<open>Truthiness, as tested by \<open>if (leavingSessionId)\<close>.\<close>

fun truthy :: "jsval \<Rightarrow> bool" where
  "truthy JUndefined = False"
| "truthy JNull = False"
| "truthy (JBool b) = b"
| "truthy (JNum n) = (n \<noteq> 0)"
| "truthy (JStr s) = (s \<noteq> [])"
| "truthy (JArr _) = True"
| "truthy (JObj _) = True"

text \<open>
  Reading a property of a value that is neither \<open>null\<close> nor \<open>undefined\<close>. The handlers
  read \<open>type\<close>, \<open>sessionId\<close>, \<open>userName\<close> and \<open>trackInfo\<close>, which no prototype defines, so
  only an object's own properties can answer.
\<close>

fun get_prop :: "jsval \<Rightarrow> string \<Rightarrow> jsval" where
  "get_prop (JObj kvs) k = (case map_of kvs k of None \<Rightarrow> JUndefined | Some v \<Rightarrow> v)"
| "get_prop _ k = JUndefined"

text \<open>
  Whether converting a value to a string inside a template literal throws a TypeError.
  An object with an own \<open>toString\<close> property (never callable after \<open>JSON.parse\<close>) has no
  usable conversion; an array joins its elements, skipping \<open>null\<close>.
\<close>

fun tostring_throws :: "jsval \<Rightarrow> bool" where
  "tostring_throws (JObj kvs) = (''toString'' \<in> set (map fst kvs))"
| "tostring_throws (JArr xs) = list_ex tostring_throws xs"
| "tostring_throws _ = False"

text \<open>
  \<open>Map.prototype.set\<close>: an existing key keeps its place and gets the new value, a new key
  is appended. Entries are kept in insertion order.
\<close>

fun map_set :: "(jsval \<times> 'v) list \<Rightarrow> jsval \<Rightarrow> 'v \<Rightarrow> (jsval \<times> 'v) list" where
  "map_set [] k v = [(k, v)]"
| "map_set ((k', v') # es) k v =
     (if same_value k' k then (k', v) # es else (k', v') # map_set es k v)"

section \<open>The handlers\<close>

text \<open>\<open>handleWebSocket\<close> first pushes the accepted socket on \<open>this.sessions\<close>.\<close>

definition handleWebSocket :: "room \<Rightarrow> ws \<Rightarrow> room" where
  "handleWebSocket r w = r\<lparr>sessions := sessions r @ [w]\<rparr>"

text \<open>
  The \<open>forEach\<close> over \<open>this.sessions\<close> of the join: every session other than the sender
  whose \<open>readyState\<close> is \<open>OPEN\<close> is sent the message.
\<close>

fun notify_joined :: "(ws \<Rightarrow> readyState) \<Rightarrow> ws \<Rightarrow> outmsg \<Rightarrow> ws list \<Rightarrow> (ws \<times> outmsg) list" where
  "notify_joined rs w m [] = []"
| "notify_joined rs w m (session # rest) =
     (if session \<noteq> w \<and> rs session = OPEN
      then (session, m) # notify_joined rs w m rest
      else notify_joined rs w m rest)"

text \<open>
  The loop over \<open>this.participants.entries()\<close> that fills \<open>existingParticipants\<close>; the
  third argument is the array built so far.
\<close>

fun collect_existing ::
  "(jsval \<times> pdata) list \<Rightarrow> jsval \<Rightarrow> (jsval \<times> jsval \<times> jsval) list \<Rightarrow> (jsval \<times> jsval \<times> jsval) list" where
  "collect_existing [] sessionId acc = acc"
| "collect_existing ((pid, d) # es) sessionId acc =
     collect_existing es sessionId
       (if \<not> same_value pid sessionId then acc @ [(pid, userName d, trackInfo d)] else acc)"

text \<open>
  The \<open>message\<close> listener of socket \<open>w\<close>, with \<open>rs\<close> the \<open>readyState\<close> of every socket
  while it runs. A \<open>send\<close> on an open socket is taken to succeed.
\<close>

definition on_message :: "(ws \<Rightarrow> readyState) \<Rightarrow> ws \<Rightarrow> frame \<Rightarrow> room \<Rightarrow> outcome" where
  "on_message rs w f r =
     (case f of
        Unparseable \<Rightarrow> \<lparr>state = r, sent = [], thrown = Some SyntaxError\<rparr>
      | Parsed message \<Rightarrow>
          if message = JNull \<or> message = JUndefined
          then \<lparr>state = r, sent = [], thrown = Some TypeError\<rparr>
          else if get_prop message ''type'' = JStr ''joinRoom''
          then
            (let sessionId = get_prop message ''sessionId'';
                 uName = get_prop message ''userName'';
                 tInfo = get_prop message ''trackInfo'';
                 r1 = r\<lparr>participants :=
                        map_set (participants r) sessionId
                          \<lparr>ws = w, userName = uName, trackInfo = tInfo\<rparr>\<rparr>
             in if tostring_throws uName \<or> \<not> is_str sessionId
                then \<lparr>state = r1, sent = [], thrown = Some TypeError\<rparr>
                else
                  (let joined = notify_joined rs w
                         (ParticipantJoined sessionId uName tInfo) (sessions r1);
                       existingParticipants = collect_existing (participants r1) sessionId []
                   in \<lparr>state = r1,
                       sent = joined @
                         (if rs w = OPEN
                          then [(w, ExistingParticipants existingParticipants)] else []),
                       thrown = None\<rparr>))
          else \<lparr>state = r, sent = [], thrown = None\<rparr>)"

text \<open>
  The scan of the \<open>close\<close> listener: the first entry whose \<open>data.ws\<close> is the closing
  socket gives \<open>leavingSessionId\<close> and is deleted, and the loop breaks. Without such an
  entry \<open>leavingSessionId\<close> stays \<open>undefined\<close>.
\<close>

fun remove_by_ws :: "(jsval \<times> pdata) list \<Rightarrow> ws \<Rightarrow> jsval \<times> (jsval \<times> pdata) list" where
  "remove_by_ws [] w = (JUndefined, [])"
| "remove_by_ws ((pid, d) # es) w =
     (if ws d = w then (pid, es)
      else (fst (remove_by_ws es w), (pid, d) # snd (remove_by_ws es w)))"

fun notify_left :: "(ws \<Rightarrow> readyState) \<Rightarrow> outmsg \<Rightarrow> ws list \<Rightarrow> (ws \<times> outmsg) list" where
  "notify_left rs m [] = []"
| "notify_left rs m (session # rest) =
     (if rs session = OPEN then (session, m) # notify_left rs m rest
      else notify_left rs m rest)"

text \<open>
  The \<open>close\<close> listener of socket \<open>w\<close>. A truthy \<open>leavingSessionId\<close> that is not a string
  has no \<open>substring\<close> method, so the log line before the broadcast throws.
\<close>

definition on_close :: "(ws \<Rightarrow> readyState) \<Rightarrow> ws \<Rightarrow> room \<Rightarrow> outcome" where
  "on_close rs w r =
     (let sessions' = filter (\<lambda>s. s \<noteq> w) (sessions r);
          leavingSessionId = fst (remove_by_ws (participants r) w);
          r' = \<lparr>sessions = sessions', participants = snd (remove_by_ws (participants r) w)\<rparr>
      in if truthy leavingSessionId
         then if is_str leavingSessionId
              then \<lparr>state = r',
                    sent = notify_left rs (ParticipantLeft leavingSessionId) sessions',
                    thrown = None\<rparr>
              else \<lparr>state = r', sent = [], thrown = Some TypeError\<rparr>
         else \<lparr>state = r', sent = [], thrown = None\<rparr>)"

text \<open>The \<open>error\<close> listener only logs.\<close>

definition on_error :: "ws \<Rightarrow> room \<Rightarrow> outcome" where
  "on_error w r = \<lparr>state = r, sent = [], thrown = None\<rparr>"

section \<open>Runs of a room\<close>

text \<open>
  The events a room processes, one at a time: a connection accepted by \<open>fetch\<close> and
  handed to \<open>handleWebSocket\<close>, and the three listeners. Nobody awaits a listener, so the
  dispatcher keeps the state and the sends and drops the exception.
\<close>

datatype event = Connect ws | Message ws frame | Close ws | Error ws

definition init :: room where
  "init = \<lparr>sessions = [], participants = []\<rparr>"

fun dispatch :: "(ws \<Rightarrow> readyState) \<Rightarrow> event \<Rightarrow> room \<Rightarrow> outcome" where
  "dispatch rs (Connect w) r = \<lparr>state = handleWebSocket r w, sent = [], thrown = None\<rparr>"
| "dispatch rs (Message w f) r = on_message rs w f r"
| "dispatch rs (Close w) r = on_close rs w r"
| "dispatch rs (Error w) r = on_error w r"

fun run :: "(ws \<Rightarrow> readyState) \<Rightarrow> room \<Rightarrow> event list \<Rightarrow> room" where
  "run rs r [] = r"
| "run rs r (e # es) = run rs (state (dispatch rs e r)) es"

text \<open>A \<open>readyState\<close> assignment with every socket open.\<close>

definition all_open :: "ws \<Rightarrow> readyState" where
  "all_open s = OPEN"

text \<open>A \<open>joinRoom\<close> message as the client sends it.\<close>

definition joinRoom :: "string \<Rightarrow> jsval \<Rightarrow> jsval \<Rightarrow> frame" where
  "joinRoom sid uName tInfo =
     Parsed (JObj [(''type'', JStr ''joinRoom''), (''sessionId'', JStr sid),
                   (''userName'', uName), (''trackInfo'', tInfo)])"

section \<open>Invariants of the state\<close>

text \<open>
  A \<open>Map\<close> holds no two entries with the same key. Keys that are arrays or objects are
  references, each its own; the other keys are pairwise different values.
\<close>

definition unique_keys :: "(jsval \<times> 'v) list \<Rightarrow> bool" where
  "unique_keys es = distinct (filter (\<lambda>k. \<not> is_ref k) (map fst es))"

text \<open>
  A discipline of the clients and of the transport, relative to an assignment \<open>idof\<close> of
  one session id to every socket: \<open>fetch\<close> hands every socket to \<open>handleWebSocket\<close> once,
  a socket delivers messages only while it is in \<open>this.sessions\<close>, and every \<open>joinRoom\<close>
  message of a socket carries that socket's id, which is not an array or object.
\<close>

fun event_ok :: "(ws \<Rightarrow> jsval) \<Rightarrow> room \<Rightarrow> event \<Rightarrow> bool" where
  "event_ok idof r (Connect w) = (w \<notin> set (sessions r))"
| "event_ok idof r (Message w Unparseable) = (w \<in> set (sessions r))"
| "event_ok idof r (Message w (Parsed m)) =
     (w \<in> set (sessions r) \<and>
      (get_prop m ''type'' \<noteq> JStr ''joinRoom'' \<or>
       (get_prop m ''sessionId'' = idof w \<and> \<not> is_ref (idof w))))"
| "event_ok idof r (Close w) = True"
| "event_ok idof r (Error w) = True"

fun run_ok :: "(ws \<Rightarrow> jsval) \<Rightarrow> (ws \<Rightarrow> readyState) \<Rightarrow> room \<Rightarrow> event list \<Rightarrow> bool" where
  "run_ok idof rs r [] = True"
| "run_ok idof rs r (e # es) = (event_ok idof r e \<and> run_ok idof rs (state (dispatch rs e r)) es)"

text \<open>
  Under that discipline the sessions are pairwise different, the registry has one entry
  per key, and every entry belongs to a socket of \<open>this.sessions\<close> and is keyed by that
  socket's id.
\<close>

definition room_inv :: "(ws \<Rightarrow> jsval) \<Rightarrow> room \<Rightarrow> bool" where
  "room_inv idof r =
     (distinct (sessions r) \<and> distinct (map fst (participants r)) \<and>
      (\<forall>(k, d) \<in> set (participants r). ws d \<in> set (sessions r) \<and> k = idof (ws d)))"

section \<open>The loops as list operations\<close>

lemma notify_joined_filter:
  "notify_joined rs w m ss = map (\<lambda>t. (t, m)) (filter (\<lambda>t. t \<noteq> w \<and> rs t = OPEN) ss)"
  by (induction ss) simp_all

lemma notify_left_filter:
  "notify_left rs m ss = map (\<lambda>t. (t, m)) (filter (\<lambda>t. rs t = OPEN) ss)"
  by (induction ss) simp_all

lemma collect_existing_filter:
  "collect_existing es sid acc =
     acc @ map (\<lambda>(k, d). (k, userName d, trackInfo d))
             (filter (\<lambda>(k, d). \<not> same_value k sid) es)"
  by (induction es sid acc rule: collect_existing.induct) simp_all

lemma same_value_str [simp]: "same_value k (JStr s) = (k = JStr s)"
  by (auto simp: same_value_def)

lemma same_value_prim: "\<not> is_ref k \<Longrightarrow> same_value k' k = (k' = k)"
  by (auto simp: same_value_def)

subsection \<open>\<open>Map.prototype.set\<close>\<close>

lemma map_set_keys:
  "\<not> is_ref k \<Longrightarrow>
   map fst (map_set es k v) = (if k \<in> set (map fst es) then map fst es else map fst es @ [k])"
  by (induction es) (force simp: same_value_prim)+

lemma map_set_keys_ref: "is_ref k \<Longrightarrow> map_set es k v = es @ [(k, v)]"
  by (induction es) (auto simp: same_value_def)

lemma map_set_mem: "\<not> is_ref k \<Longrightarrow> (k, v) \<in> set (map_set es k v)"
  by (induction es) (auto simp: same_value_prim)

lemma map_set_cases:
  "(k', v') \<in> set (map_set es k v) \<Longrightarrow> (k', v') \<in> set es \<or> (k' = k \<and> v' = v)"
  by (induction es) (auto simp: same_value_def split: if_splits)

lemma map_set_keeps:
  "(k', v') \<in> set es \<Longrightarrow> k' \<noteq> k \<Longrightarrow> (k', v') \<in> set (map_set es k v)"
  by (induction es) (auto simp: same_value_def split: if_splits)

lemma map_set_map_of: "\<not> is_ref k \<Longrightarrow> map_of (map_set es k v) k = Some v"
  by (induction es) (auto simp: same_value_prim)

lemma map_set_unique: "unique_keys es \<Longrightarrow> unique_keys (map_set es k v)"
  by (cases "is_ref k") (auto simp: unique_keys_def map_set_keys map_set_keys_ref)

lemma map_set_length:
  "\<not> is_ref k \<Longrightarrow> k \<in> set (map fst es) \<Longrightarrow> length (map_set es k v) = length es"
  by (induction es) (force simp: same_value_prim)+

lemma map_set_idem: "\<not> is_ref k \<Longrightarrow> map_set (map_set es k v) k v = map_set es k v"
  by (induction es) (auto simp: same_value_prim)

subsection \<open>The scan of the close listener\<close>

lemma find_SomeD: "find P xs = Some x \<Longrightarrow> P x"
  by (auto simp: find_Some_iff)

lemma remove_by_ws_snd:
  "snd (remove_by_ws es w) =
     (case find (\<lambda>(k, d). ws d = w) es of None \<Rightarrow> es | Some e \<Rightarrow> remove1 e es)"
  by (induction es w rule: remove_by_ws.induct) (auto split: option.splits dest: find_SomeD)

lemma remove_by_ws_fst:
  "fst (remove_by_ws es w) =
     (case find (\<lambda>(k, d). ws d = w) es of None \<Rightarrow> JUndefined | Some e \<Rightarrow> fst e)"
  by (induction es w rule: remove_by_ws.induct) (auto split: option.splits)

subsection \<open>A join that runs to its end\<close>

text \<open>
  A \<open>joinRoom\<close> message whose \<open>sessionId\<close> is a string and whose \<open>userName\<close> converts to a
  string passes the log line and reaches the broadcast and the reply.
\<close>

lemma on_message_join:
  assumes "get_prop m ''type'' = JStr ''joinRoom''"
    and "get_prop m ''sessionId'' = JStr s"
    and "\<not> tostring_throws (get_prop m ''userName'')"
  shows "on_message rs w (Parsed m) r =
     \<lparr>state = r\<lparr>participants := map_set (participants r) (JStr s)
          \<lparr>ws = w, userName = get_prop m ''userName'', trackInfo = get_prop m ''trackInfo''\<rparr>\<rparr>,
      sent = map (\<lambda>t. (t, ParticipantJoined (JStr s) (get_prop m ''userName'')
                           (get_prop m ''trackInfo'')))
               (filter (\<lambda>t. t \<noteq> w \<and> rs t = OPEN) (sessions r))
             @ (if rs w = OPEN
                then [(w, ExistingParticipants
                        (map (\<lambda>(k, d). (k, userName d, trackInfo d))
                          (filter (\<lambda>(k, d). k \<noteq> JStr s)
                            (map_set (participants r) (JStr s)
                              \<lparr>ws = w, userName = get_prop m ''userName'',
                                trackInfo = get_prop m ''trackInfo''\<rparr>))))]
                else []),
      thrown = None\<rparr>"
proof -
  have "m \<noteq> JNull" "m \<noteq> JUndefined" using assms(1) by auto
  then show ?thesis
    using assms
    by (simp add: on_message_def Let_def notify_joined_filter collect_existing_filter)
qed


lemma on_message_state:
  "state (on_message rs w (Parsed m) r) =
     (if get_prop m ''type'' = JStr ''joinRoom''
      then r\<lparr>participants := map_set (participants r) (get_prop m ''sessionId'')
             \<lparr>ws = w, userName = get_prop m ''userName'', trackInfo = get_prop m ''trackInfo''\<rparr>\<rparr>
      else r)"
  by (auto simp: on_message_def Let_def)

lemma filter_own_message:
  "filter (\<lambda>(t, msg). msg = M) (map (\<lambda>t. (t, M)) ss) = map (\<lambda>t. (t, M)) ss"
  by (induction ss) auto

lemma filter_receiver_excluded:
  "filter (\<lambda>(t, msg). t = w) (map (\<lambda>t. (t, M)) (filter (\<lambda>t. t \<noteq> w \<and> P t) ss)) = []"
  by (induction ss) auto

subsection \<open>One entry per key\<close>

lemma unique_keys_count:
  "unique_keys es \<Longrightarrow> \<not> is_ref k \<Longrightarrow> k \<in> set (map fst es) \<Longrightarrow>
   length (filter (\<lambda>(k', d). k' = k) es) = 1"
proof (induction es)
  case Nil
  then show ?case by simp
next
  case (Cons e es)
  obtain k' v where e: "e = (k', v)" by (cases e)
  show ?case
  proof (cases "k' = k")
    case True
    with Cons.prems e have "k \<notin> set (map fst es)" by (auto simp: unique_keys_def)
    then have "filter (\<lambda>(k', d). k' = k) es = []" by (force simp: filter_empty_conv)
    with True e show ?thesis by simp
  next
    case False
    with Cons.prems e have "unique_keys es" "k \<in> set (map fst es)"
      by (auto simp: unique_keys_def split: if_splits)
    with Cons.IH Cons.prems False e show ?thesis by simp
  qed
qed


subsection \<open>The close listener by cases\<close>

lemma find_Some_mem: "find P xs = Some x \<Longrightarrow> x \<in> set xs"
  by (induction xs) (auto split: if_splits)

lemma on_close_sessions:
  "sessions (state (on_close rs w r)) = filter (\<lambda>t. t \<noteq> w) (sessions r)"
  by (simp add: on_close_def Let_def)

lemma on_close_unbound:
  assumes "find (\<lambda>(k, d). ws d = w) (participants r) = None"
  shows "on_close rs w r =
    \<lparr>state = r\<lparr>sessions := filter (\<lambda>t. t \<noteq> w) (sessions r)\<rparr>, sent = [], thrown = None\<rparr>"
  using assms by (simp add: on_close_def Let_def remove_by_ws_snd remove_by_ws_fst)

lemma on_close_bound:
  assumes "find (\<lambda>(k, d). ws d = w) (participants r) = Some (JStr s, d0)" and "s \<noteq> []"
  shows "on_close rs w r =
    \<lparr>state = \<lparr>sessions = filter (\<lambda>t. t \<noteq> w) (sessions r),
              participants = remove1 (JStr s, d0) (participants r)\<rparr>,
     sent = map (\<lambda>t. (t, ParticipantLeft (JStr s)))
              (filter (\<lambda>t. rs t = OPEN) (filter (\<lambda>t. t \<noteq> w) (sessions r))),
     thrown = None\<rparr>"
  using assms
  by (simp add: on_close_def Let_def remove_by_ws_snd remove_by_ws_fst notify_left_filter)

lemma count_list_map_pair: "count_list (map (\<lambda>t. (t, M)) ss) (t, M) = count_list ss t"
  by (induction ss) auto

lemma count_list_distinct: "distinct ss \<Longrightarrow> count_list ss t = (if t \<in> set ss then 1 else 0)"
  by (induction ss) auto

subsection \<open>The state does not depend on the ready states\<close>

lemma dispatch_state_indep: "state (dispatch rs e r) = state (dispatch rs' e r)"
proof (cases e)
  case (Connect w)
  then show ?thesis by simp
next
  case (Message w f)
  then show ?thesis by (cases f) (simp_all add: on_message_state, simp add: on_message_def)
next
  case (Close w)
  then show ?thesis by (simp add: on_close_def Let_def)
next
  case (Error w)
  then show ?thesis by (simp add: on_error_def)
qed

subsection \<open>Every run keeps one entry per key\<close>

lemma unique_keys_remove1: "unique_keys es \<Longrightarrow> unique_keys (remove1 e es)"
  unfolding unique_keys_def
proof (induction es)
  case Nil
  then show ?case by simp
next
  case (Cons a es)
  have "fst ` set (remove1 e es) \<subseteq> fst ` set es"
    using set_remove1_subset [of e es] by auto
  with Cons show ?case by (auto split: if_splits)
qed

lemma unique_keys_dispatch:
  assumes "unique_keys (participants r)"
  shows "unique_keys (participants (state (dispatch rs e r)))"
proof (cases e)
  case (Connect w)
  with assms show ?thesis by (simp add: handleWebSocket_def)
next
  case (Message w f)
  with assms show ?thesis
    by (cases f) (simp_all add: on_message_state map_set_unique, simp add: on_message_def)
next
  case (Close w)
  with assms show ?thesis
    by (simp add: on_close_def Let_def remove_by_ws_snd unique_keys_remove1 split: option.splits)
next
  case (Error w)
  with assms show ?thesis by (simp add: on_error_def)
qed

lemma unique_keys_run:
  "unique_keys (participants r) \<Longrightarrow> unique_keys (participants (run rs r es))"
  by (induction es arbitrary: r) (simp_all add: unique_keys_dispatch)

lemma unique_keys_reachable: "unique_keys (participants (run rs init es))"
  by (rule unique_keys_run) (simp add: init_def unique_keys_def)

subsection \<open>The invariant of disciplined runs\<close>

lemma distinct_keys_remove1: "distinct (map fst es) \<Longrightarrow> distinct (map fst (remove1 e es))"
  by (induction es) (force dest: set_remove1_subset [THEN subsetD])+

lemma room_inv_init: "room_inv idof init"
  by (simp add: room_inv_def init_def)

lemma room_inv_connect:
  "room_inv idof r \<Longrightarrow> w \<notin> set (sessions r) \<Longrightarrow> room_inv idof (handleWebSocket r w)"
  by (auto simp: room_inv_def handleWebSocket_def)

lemma room_inv_join:
  assumes "room_inv idof r" and "w \<in> set (sessions r)" and "\<not> is_ref (idof w)"
  shows "room_inv idof (r\<lparr>participants :=
           map_set (participants r) (idof w) \<lparr>ws = w, userName = u, trackInfo = t\<rparr>\<rparr>)"
proof -
  let ?ps' = "map_set (participants r) (idof w) \<lparr>ws = w, userName = u, trackInfo = t\<rparr>"
  have "distinct (map fst ?ps')"
    using assms by (simp add: map_set_keys room_inv_def)
  moreover have "ws d \<in> set (sessions r) \<and> k = idof (ws d)" if "(k, d) \<in> set ?ps'" for k d
    using map_set_cases [OF that] assms by (auto simp: room_inv_def)
  ultimately show ?thesis using assms(1) by (auto simp: room_inv_def)
qed

lemma room_inv_close:
  assumes "room_inv idof r"
  shows "room_inv idof (state (on_close rs w r))"
proof -
  let ?ps = "participants r"
  let ?ps' = "snd (remove_by_ws ?ps w)"
  have st: "state (on_close rs w r) =
      \<lparr>sessions = filter (\<lambda>t. t \<noteq> w) (sessions r), participants = ?ps'\<rparr>"
    by (simp add: on_close_def Let_def)
  have dk: "distinct (map fst ?ps)" and ds: "distinct (sessions r)"
    and own: "\<And>k d. (k, d) \<in> set ?ps \<Longrightarrow> ws d \<in> set (sessions r) \<and> k = idof (ws d)"
    using assms by (auto simp: room_inv_def)
  have dps: "distinct ?ps" using dk by (rule distinct_map [THEN iffD1, THEN conjunct1])
  have sub: "set ?ps' \<subseteq> set ?ps"
    by (auto simp: remove_by_ws_snd split: option.splits
        dest: set_remove1_subset [THEN subsetD])
  have dk': "distinct (map fst ?ps')"
    using dk by (simp add: remove_by_ws_snd distinct_keys_remove1 split: option.splits)
  have gone: "ws d \<noteq> w" if "(k, d) \<in> set ?ps'" for k d
  proof (cases "find (\<lambda>(k, d). ws d = w) ?ps")
    case None
    with that show ?thesis by (auto simp: remove_by_ws_snd find_None_iff)
  next
    case (Some e)
    obtain k0 d0 where e: "e = (k0, d0)" by (cases e)
    from Some e have w0: "ws d0 = w" by (auto dest: find_SomeD)
    from Some e have in0: "(k0, d0) \<in> set ?ps" by (auto dest: find_Some_mem)
    from that Some have mem: "(k, d) \<in> set ?ps - {e}"
      using dps by (simp add: remove_by_ws_snd)
    show ?thesis
    proof
      assume "ws d = w"
      with mem own in0 w0 have "k = k0" by (metis DiffD1)
      with dk mem in0 have "d = d0" by (metis DiffD1 eq_key_imp_eq_value)
      with \<open>k = k0\<close> mem e show False by simp
    qed
  qed
  have "ws d \<in> set (filter (\<lambda>t. t \<noteq> w) (sessions r)) \<and> k = idof (ws d)"
    if "(k, d) \<in> set ?ps'" for k d
    using that gone [OF that] own [of k d] sub by auto
  then show ?thesis
    unfolding room_inv_def st
    using ds dk' by auto
qed

lemma room_inv_dispatch:
  "room_inv idof r \<Longrightarrow> event_ok idof r e \<Longrightarrow> room_inv idof (state (dispatch rs e r))"
proof (induction idof r e rule: event_ok.induct)
  case (1 idof r w)
  then show ?case by (simp add: room_inv_connect)
next
  case (2 idof r w)
  then show ?case by (simp add: on_message_def)
next
  case (3 idof r w m)
  then show ?case by (auto simp: on_message_state room_inv_join)
next
  case (4 idof r w)
  then show ?case by (simp add: room_inv_close)
next
  case (5 idof r w)
  then show ?case by (simp add: on_error_def)
qed

lemma room_inv_run:
  "room_inv idof r \<Longrightarrow> run_ok idof rs r es \<Longrightarrow> room_inv idof (run rs r es)"
  by (induction es arbitrary: r) (auto simp: room_inv_dispatch)

lemma run_ok_take: "run_ok idof rs r es \<Longrightarrow> run_ok idof rs r (take n es)"
proof (induction es arbitrary: r n)
  case Nil
  then show ?case by simp
next
  case (Cons e es)
  then show ?case by (cases n) auto
qed

lemma room_inv_sizes:
  assumes "room_inv idof r"
  shows "length (participants r) \<le> length (sessions r)"
proof -
  let ?ps = "participants r"
  have dk: "distinct (map fst ?ps)" and ds: "distinct (sessions r)"
    and own: "\<And>k d. (k, d) \<in> set ?ps \<Longrightarrow> ws d \<in> set (sessions r) \<and> k = idof (ws d)"
    using assms by (auto simp: room_inv_def)
  have dps: "distinct ?ps" using dk by (rule distinct_map [THEN iffD1, THEN conjunct1])
  have inj: "inj_on (\<lambda>e. ws (snd e)) (set ?ps)"
  proof (rule inj_onI)
    fix a b assume a: "a \<in> set ?ps" and b: "b \<in> set ?ps" and eq: "ws (snd a) = ws (snd b)"
    obtain ka da kb db where ab: "a = (ka, da)" "b = (kb, db)" by (cases a, cases b)
    with a b eq own have "ka = kb" by (metis snd_conv)
    with dk a b ab show "a = b" by (metis eq_key_imp_eq_value)
  qed
  have "(\<lambda>e. ws (snd e)) ` set ?ps \<subseteq> set (sessions r)" using own by auto
  then have "card ((\<lambda>e. ws (snd e)) ` set ?ps) \<le> card (set (sessions r))"
    by (simp add: card_mono)
  then show ?thesis
    using inj dps ds by (simp add: card_image distinct_card)
qed

section \<open>Joining\<close>

text \<open>
  Claim C1. When a \<open>joinRoom\<close> message with session id \<open>s\<close> is handled to its end and
  the sender's socket is open, the sender is sent exactly one message, the
  \<open>existingParticipants\<close> reply, and its list is the registry as it stands after the
  sender's own record was stored, without the entry keyed \<open>s\<close>, in registry order. The
  sender's record is in that registry, no entry of the list carries \<open>s\<close>, and the entries
  under other ids are exactly those the registry held before the message.
\<close>

theorem existing_participants_snapshot:
  assumes "get_prop m ''type'' = JStr ''joinRoom''"
    and "get_prop m ''sessionId'' = JStr s"
    and "\<not> tostring_throws (get_prop m ''userName'')"
    and "rs w = OPEN"
  shows "thrown (on_message rs w (Parsed m) r) = None
     \<and> filter (\<lambda>(t, msg). t = w) (sent (on_message rs w (Parsed m) r)) =
         [(w, ExistingParticipants
               (map (\<lambda>(k, d). (k, userName d, trackInfo d))
                 (filter (\<lambda>(k, d). k \<noteq> JStr s)
                   (participants (state (on_message rs w (Parsed m) r))))))]
     \<and> (JStr s, \<lparr>ws = w, userName = get_prop m ''userName'',
                  trackInfo = get_prop m ''trackInfo''\<rparr>)
          \<in> set (participants (state (on_message rs w (Parsed m) r)))
     \<and> (\<forall>(k, d) \<in> set (participants r). k \<noteq> JStr s \<longrightarrow>
          (k, d) \<in> set (participants (state (on_message rs w (Parsed m) r))))
     \<and> (\<forall>(k, d) \<in> set (participants (state (on_message rs w (Parsed m) r))).
          k \<noteq> JStr s \<longrightarrow> (k, d) \<in> set (participants r))"
  using assms
  by (auto simp: on_message_join filter_receiver_excluded map_set_mem map_set_keeps
      dest: map_set_cases)

theorem existing_participants_snapshot_witness:
  "all_open 2 = OPEN
   \<and> filter (\<lambda>(t, msg). t = 2)
       (sent (on_message all_open 2 (joinRoom ''b1'' (JStr ''B'') JNull)
          \<lparr>sessions = [1, 2],
           participants = [(JStr ''a1'', \<lparr>ws = 1, userName = JStr ''A'', trackInfo = JArr []\<rparr>)]\<rparr>))
     = [(2, ExistingParticipants [(JStr ''a1'', JStr ''A'', JArr [])])]"
  using existing_participants_snapshot
    [of "JObj [(''type'', JStr ''joinRoom''), (''sessionId'', JStr ''b1''),
               (''userName'', JStr ''B''), (''trackInfo'', JNull)]"
        "''b1''" all_open 2
        "\<lparr>sessions = [1, 2],
          participants = [(JStr ''a1'', \<lparr>ws = 1, userName = JStr ''A'', trackInfo = JArr []\<rparr>)]\<rparr>"]
  by (simp add: all_open_def joinRoom_def on_message_def Let_def same_value_def)

text \<open>
  Claim C5 as stated fails: the log line after \<open>this.participants.set\<close> calls
  \<open>sessionId.substring\<close> and converts \<open>userName\<close> to a string. With the session id \<open>5\<close>
  both of two identical \<open>joinRoom\<close> messages store their record and then end with a
  TypeError before the broadcast, so the open session 2 is sent no \<open>participantJoined\<close>;
  a string id with a \<open>userName\<close> object that has its own \<open>toString\<close> property ends the
  same way.
\<close>

theorem duplicate_join_overwrites_counterexample:
  "on_message all_open 1
      (Parsed (JObj [(''type'', JStr ''joinRoom''), (''sessionId'', JNum 5),
                     (''userName'', JStr ''A''), (''trackInfo'', JNull)]))
      (state (on_message all_open 1
         (Parsed (JObj [(''type'', JStr ''joinRoom''), (''sessionId'', JNum 5),
                        (''userName'', JStr ''A''), (''trackInfo'', JNull)]))
         \<lparr>sessions = [1, 2], participants = []\<rparr>))
   = \<lparr>state = \<lparr>sessions = [1, 2],
         participants = [(JNum 5, \<lparr>ws = 1, userName = JStr ''A'', trackInfo = JNull\<rparr>)]\<rparr>,
      sent = [], thrown = Some TypeError\<rparr>
   \<and> on_message all_open 1
      (Parsed (JObj [(''type'', JStr ''joinRoom''), (''sessionId'', JNum 5),
                     (''userName'', JStr ''A''), (''trackInfo'', JNull)]))
      \<lparr>sessions = [1, 2], participants = []\<rparr>
   = \<lparr>state = \<lparr>sessions = [1, 2],
         participants = [(JNum 5, \<lparr>ws = 1, userName = JStr ''A'', trackInfo = JNull\<rparr>)]\<rparr>,
      sent = [], thrown = Some TypeError\<rparr>
   \<and> all_open 2 = OPEN
   \<and> on_message all_open 1
      (joinRoom ''a1'' (JObj [(''toString'', JNum 1)]) JNull)
      \<lparr>sessions = [1, 2], participants = []\<rparr>
   = \<lparr>state = \<lparr>sessions = [1, 2],
         participants = [(JStr ''a1'', \<lparr>ws = 1, userName = JObj [(''toString'', JNum 1)],
                                        trackInfo = JNull\<rparr>)]\<rparr>,
      sent = [], thrown = Some TypeError\<rparr>"
  by (simp add: all_open_def joinRoom_def on_message_def Let_def same_value_def)

text \<open>
  Claim C5, amended. Two \<open>joinRoom\<close> messages with the same payload, whose session id
  is a string \<open>s\<close> and whose \<open>userName\<close> converts to a string, handled one after the other
  (from sockets \<open>wa\<close> and \<open>wb\<close>, equal or not), leave exactly one registry entry keyed
  \<open>s\<close>: the second \<open>set\<close> overwrites in place, so the registry does not grow, the entry
  holds what the second message stored, and with the same sender the state after the second
  message is the state after the first. Each of the two messages sends its own
  \<open>participantJoined\<close> to every open session other than its sender.
\<close>

theorem duplicate_join_overwrites:
  assumes "get_prop m ''type'' = JStr ''joinRoom''"
    and "get_prop m ''sessionId'' = JStr s"
    and "\<not> tostring_throws (get_prop m ''userName'')"
    and "unique_keys (participants r)"
    and "oa = on_message rsa wa (Parsed m) r"
    and "ob = on_message rsb wb (Parsed m) (state oa)"
    and "pj = ParticipantJoined (JStr s) (get_prop m ''userName'') (get_prop m ''trackInfo'')"
  shows "length (filter (\<lambda>(k, d). k = JStr s) (participants (state ob))) = 1
     \<and> length (participants (state ob)) = length (participants (state oa))
     \<and> map_of (participants (state ob)) (JStr s) =
         Some \<lparr>ws = wb, userName = get_prop m ''userName'', trackInfo = get_prop m ''trackInfo''\<rparr>
     \<and> (wa = wb \<longrightarrow> state ob = state oa)
     \<and> filter (\<lambda>(t, msg). msg = pj) (sent oa) =
         map (\<lambda>t. (t, pj)) (filter (\<lambda>t. t \<noteq> wa \<and> rsa t = OPEN) (sessions r))
     \<and> filter (\<lambda>(t, msg). msg = pj) (sent ob) =
         map (\<lambda>t. (t, pj)) (filter (\<lambda>t. t \<noteq> wb \<and> rsb t = OPEN) (sessions r))"
proof -
  let ?d1 = "\<lparr>ws = wa, userName = get_prop m ''userName'', trackInfo = get_prop m ''trackInfo''\<rparr>"
  let ?d2 = "\<lparr>ws = wb, userName = get_prop m ''userName'', trackInfo = get_prop m ''trackInfo''\<rparr>"
  let ?p1 = "map_set (participants r) (JStr s) ?d1"
  let ?p2 = "map_set ?p1 (JStr s) ?d2"
  have s1: "state oa = r\<lparr>participants := ?p1\<rparr>"
    using assms(1-3,5) by (simp add: on_message_join)
  have s2: "state ob = r\<lparr>participants := ?p2\<rparr>"
    using assms(1-3,6) s1 by (simp add: on_message_join)
  have in1: "JStr s \<in> set (map fst ?p1)"
    using map_set_mem [of "JStr s" ?d1 "participants r"] by force
  have in2: "JStr s \<in> set (map fst ?p2)"
    using map_set_mem [of "JStr s" ?d2 ?p1] by force
  have u2: "unique_keys ?p2" using assms(4) by (simp add: map_set_unique)
  have c1: "length (filter (\<lambda>(k, d). k = JStr s) ?p2) = 1"
    using unique_keys_count [OF u2 _ in2] by simp
  have c2: "length ?p2 = length ?p1" using in1 by (simp add: map_set_length)
  have c3: "map_of ?p2 (JStr s) = Some ?d2" by (simp add: map_set_map_of)
  have c4: "wa = wb \<longrightarrow> ?p2 = ?p1" by (simp add: map_set_idem)
  have c5: "filter (\<lambda>(t, msg). msg = pj) (sent oa) =
         map (\<lambda>t. (t, pj)) (filter (\<lambda>t. t \<noteq> wa \<and> rsa t = OPEN) (sessions r))"
    using assms(1-3,5,7) by (auto simp: on_message_join filter_own_message)
  have c6: "filter (\<lambda>(t, msg). msg = pj) (sent ob) =
         map (\<lambda>t. (t, pj)) (filter (\<lambda>t. t \<noteq> wb \<and> rsb t = OPEN) (sessions r))"
    using assms(1-3,6,7) s1 by (auto simp: on_message_join filter_own_message)
  show ?thesis using s1 s2 c1 c2 c3 c4 c5 c6 by simp
qed

theorem duplicate_join_overwrites_witness:
  "unique_keys [(JStr ''a1'', \<lparr>ws = 1, userName = JStr ''A'', trackInfo = JNull\<rparr>)]
   \<and> participants (state (on_message all_open 2 (joinRoom ''b1'' (JStr ''B'') JNull)
        (state (on_message all_open 2 (joinRoom ''b1'' (JStr ''B'') JNull)
          \<lparr>sessions = [1, 2],
           participants = [(JStr ''a1'', \<lparr>ws = 1, userName = JStr ''A'', trackInfo = JNull\<rparr>)]\<rparr>))))
     = [(JStr ''a1'', \<lparr>ws = 1, userName = JStr ''A'', trackInfo = JNull\<rparr>),
        (JStr ''b1'', \<lparr>ws = 2, userName = JStr ''B'', trackInfo = JNull\<rparr>)]
   \<and> sent (on_message all_open 2 (joinRoom ''b1'' (JStr ''B'') JNull)
        (state (on_message all_open 2 (joinRoom ''b1'' (JStr ''B'') JNull)
          \<lparr>sessions = [1, 2],
           participants = [(JStr ''a1'', \<lparr>ws = 1, userName = JStr ''A'', trackInfo = JNull\<rparr>)]\<rparr>)))
     = [(1, ParticipantJoined (JStr ''b1'') (JStr ''B'') JNull),
        (2, ExistingParticipants [(JStr ''a1'', JStr ''A'', JNull)])]"
  using duplicate_join_overwrites
    [where m = "JObj [(''type'', JStr ''joinRoom''), (''sessionId'', JStr ''b1''),
                      (''userName'', JStr ''B''), (''trackInfo'', JNull)]"
       and s = "''b1''" and rsa = all_open and rsb = all_open and wa = 2 and wb = 2
       and r = "\<lparr>sessions = [1, 2],
          participants = [(JStr ''a1'', \<lparr>ws = 1, userName = JStr ''A'', trackInfo = JNull\<rparr>)]\<rparr>",
     OF _ _ _ _ refl refl refl]
  by (simp add: all_open_def joinRoom_def on_message_def Let_def same_value_def unique_keys_def)

text \<open>
  Claim C6. When a \<open>joinRoom\<close> message is handled to its end, the \<open>participantJoined\<close>
  messages sent are, in the order of \<open>this.sessions\<close>, one for every session that is not
  the sender and whose socket is open. The listener ends without an exception, a socket
  that is not open is sent nothing at all, and every open session other than the sender
  is reached wherever it stands in \<open>this.sessions\<close> relative to sockets that are not open.
\<close>

theorem joined_broadcast:
  assumes "get_prop m ''type'' = JStr ''joinRoom''"
    and "get_prop m ''sessionId'' = JStr s"
    and "\<not> tostring_throws (get_prop m ''userName'')"
    and "pj = ParticipantJoined (JStr s) (get_prop m ''userName'') (get_prop m ''trackInfo'')"
  shows "thrown (on_message rs w (Parsed m) r) = None
     \<and> filter (\<lambda>(t, msg). msg = pj) (sent (on_message rs w (Parsed m) r)) =
        map (\<lambda>t. (t, pj)) (filter (\<lambda>t. t \<noteq> w \<and> rs t = OPEN) (sessions r))
     \<and> (\<forall>t. rs t \<noteq> OPEN \<longrightarrow> t \<notin> fst ` set (sent (on_message rs w (Parsed m) r)))
     \<and> (\<forall>t \<in> set (sessions r). t \<noteq> w \<and> rs t = OPEN \<longrightarrow>
          (t, pj) \<in> set (sent (on_message rs w (Parsed m) r)))"
  using assms by (auto simp: on_message_join filter_own_message)

theorem joined_broadcast_witness:
  "filter (\<lambda>(t, msg). msg = ParticipantJoined (JStr ''d1'') (JStr ''D'') JNull)
     (sent (on_message (all_open(2 := CLOSED)) 4 (joinRoom ''d1'' (JStr ''D'') JNull)
        \<lparr>sessions = [1, 2, 3, 4], participants = []\<rparr>))
   = [(1, ParticipantJoined (JStr ''d1'') (JStr ''D'') JNull),
      (3, ParticipantJoined (JStr ''d1'') (JStr ''D'') JNull)]"
  using joined_broadcast
    [where m = "JObj [(''type'', JStr ''joinRoom''), (''sessionId'', JStr ''d1''),
                      (''userName'', JStr ''D''), (''trackInfo'', JNull)]"
       and s = "''d1''" and rs = "all_open(2 := CLOSED)" and w = 4
       and r = "\<lparr>sessions = [1, 2, 3, 4], participants = []\<rparr>",
     OF _ _ _ refl]
  by (simp add: all_open_def joinRoom_def on_message_def Let_def same_value_def)

text \<open>
  Claim C10. When the sender's own socket is not open while its \<open>joinRoom\<close> message is
  handled, no \<open>existingParticipants\<close> reply is sent and the listener ends without an
  exception; the sender's record is stored in the registry all the same, and what is sent
  is exactly the \<open>participantJoined\<close> broadcast to the open sessions other than the sender.
\<close>

theorem join_without_reply:
  assumes "get_prop m ''type'' = JStr ''joinRoom''"
    and "get_prop m ''sessionId'' = JStr s"
    and "\<not> tostring_throws (get_prop m ''userName'')"
    and "rs w \<noteq> OPEN"
  shows "thrown (on_message rs w (Parsed m) r) = None
     \<and> (JStr s, \<lparr>ws = w, userName = get_prop m ''userName'',
                  trackInfo = get_prop m ''trackInfo''\<rparr>)
          \<in> set (participants (state (on_message rs w (Parsed m) r)))
     \<and> sent (on_message rs w (Parsed m) r) =
        map (\<lambda>t. (t, ParticipantJoined (JStr s) (get_prop m ''userName'')
                       (get_prop m ''trackInfo'')))
          (filter (\<lambda>t. t \<noteq> w \<and> rs t = OPEN) (sessions r))"
  using assms by (simp add: on_message_join map_set_mem)

theorem join_without_reply_witness:
  "(all_open(2 := CLOSING)) 2 \<noteq> OPEN
   \<and> on_message (all_open(2 := CLOSING)) 2 (joinRoom ''b1'' (JStr ''B'') JNull)
        \<lparr>sessions = [1, 2],
         participants = [(JStr ''a1'', \<lparr>ws = 1, userName = JStr ''A'', trackInfo = JNull\<rparr>)]\<rparr>
     = \<lparr>state = \<lparr>sessions = [1, 2],
           participants = [(JStr ''a1'', \<lparr>ws = 1, userName = JStr ''A'', trackInfo = JNull\<rparr>),
                           (JStr ''b1'', \<lparr>ws = 2, userName = JStr ''B'', trackInfo = JNull\<rparr>)]\<rparr>,
        sent = [(1, ParticipantJoined (JStr ''b1'') (JStr ''B'') JNull)],
        thrown = None\<rparr>"
  using join_without_reply
    [of "JObj [(''type'', JStr ''joinRoom''), (''sessionId'', JStr ''b1''),
               (''userName'', JStr ''B''), (''trackInfo'', JNull)]"
        "''b1''" "all_open(2 := CLOSING)" 2
        "\<lparr>sessions = [1, 2],
          participants = [(JStr ''a1'', \<lparr>ws = 1, userName = JStr ''A'', trackInfo = JNull\<rparr>)]\<rparr>"]
  by (simp add: all_open_def joinRoom_def on_message_def Let_def same_value_def)

section \<open>Frames that are not join messages\<close>

text \<open>
  Claim C7. A frame that does not parse, or that parses to something other than an
  object, leaves the sessions and the registry as they were and sends nothing. The
  listener's promise is rejected (SyntaxError from \<open>JSON.parse\<close>, TypeError from reading
  \<open>type\<close> of \<open>null\<close>) or fulfilled; nothing observes it, no socket is closed, and the room
  handles the events that follow exactly as if the frame had not arrived.
\<close>

theorem malformed_frame_ignored:
  assumes "f = Unparseable \<or> (\<exists>v. f = Parsed v \<and> (\<forall>kvs. v \<noteq> JObj kvs))"
  shows "state (on_message rs w f r) = r \<and> sent (on_message rs w f r) = []
       \<and> run rs r (Message w f # es) = run rs r es"
proof -
  have "state (on_message rs w f r) = r \<and> sent (on_message rs w f r) = []"
  proof (cases f)
    case Unparseable
    then show ?thesis by (simp add: on_message_def)
  next
    case (Parsed v)
    with assms have "\<forall>kvs. v \<noteq> JObj kvs" by simp
    then have "get_prop v ''type'' = JUndefined" by (cases v) simp_all
    with Parsed show ?thesis by (simp add: on_message_def)
  qed
  then show ?thesis by simp
qed

theorem malformed_frame_ignored_witness:
  "state (on_message all_open 1 Unparseable \<lparr>sessions = [1, 2], participants = []\<rparr>)
     = \<lparr>sessions = [1, 2], participants = []\<rparr>
   \<and> sent (on_message all_open 1 (Parsed (JStr ''hello''))
        \<lparr>sessions = [1, 2], participants = []\<rparr>) = []"
  using malformed_frame_ignored [of Unparseable all_open 1
      "\<lparr>sessions = [1, 2], participants = []\<rparr>" "[]"]
    malformed_frame_ignored [of "Parsed (JStr ''hello'')" all_open 1
      "\<lparr>sessions = [1, 2], participants = []\<rparr>" "[]"]
  by simp

text \<open>
  Claim C8. A message that parses to an object whose \<open>type\<close> is not \<open>joinRoom\<close> ends the
  listener without an exception, with the sessions and the registry unchanged and nothing
  sent to any session; the events that follow are handled as if it had not arrived.
\<close>

theorem other_type_ignored:
  assumes "get_prop (JObj kvs) ''type'' \<noteq> JStr ''joinRoom''"
  shows "on_message rs w (Parsed (JObj kvs)) r = \<lparr>state = r, sent = [], thrown = None\<rparr>
       \<and> run rs r (Message w (Parsed (JObj kvs)) # es) = run rs r es"
  using assms by (simp add: on_message_def)

theorem other_type_ignored_witness:
  "on_message all_open 1 (Parsed (JObj [(''type'', JStr ''iceCandidate'')]))
       \<lparr>sessions = [1, 2], participants = []\<rparr>
     = \<lparr>state = \<lparr>sessions = [1, 2], participants = []\<rparr>, sent = [], thrown = None\<rparr>"
  using other_type_ignored [of "[(''type'', JStr ''iceCandidate'')]" all_open 1
      "\<lparr>sessions = [1, 2], participants = []\<rparr>" "[]"]
  by simp

section \<open>Sessions and registry entries\<close>

text \<open>
  Claim C2 as stated fails: the registry is keyed by the session id the client puts in the
  message, so one socket that joins under two ids owns two entries while it is one session.
\<close>

theorem sessions_bound_participants_counterexample:
  "length (sessions (run all_open init
      [Connect 0, Message 0 (joinRoom ''a'' (JStr ''A'') JNull),
       Message 0 (joinRoom ''b'' (JStr ''A'') JNull)]))
   < length (participants (run all_open init
      [Connect 0, Message 0 (joinRoom ''a'' (JStr ''A'') JNull),
       Message 0 (joinRoom ''b'' (JStr ''A'') JNull)]))"
  by (simp add: init_def handleWebSocket_def joinRoom_def on_message_def Let_def
      same_value_def)

text \<open>
  Claim C2, amended. In a room that starts empty, if every socket is accepted once, sends
  messages only while it is in \<open>this.sessions\<close>, and puts one and the same session id (not
  an array or object) in all its \<open>joinRoom\<close> messages, then after every processed event
  there are at least as many sessions as registry entries.
\<close>

theorem sessions_bound_participants:
  assumes "run_ok idof rs init es"
  shows "length (participants (run rs init (take n es)))
           \<le> length (sessions (run rs init (take n es)))"
  using assms by (intro room_inv_sizes room_inv_run room_inv_init run_ok_take)

theorem sessions_bound_participants_witness:
  "run_ok (\<lambda>w. if w = 1 then JStr ''a1'' else JStr ''b1'') all_open init
     [Connect 1, Message 1 (joinRoom ''a1'' (JStr ''A'') JNull), Connect 2,
      Message 2 (joinRoom ''b1'' (JStr ''B'') JNull), Close 1]
   \<and> length (participants (run all_open init (take 4
     [Connect 1, Message 1 (joinRoom ''a1'' (JStr ''A'') JNull), Connect 2,
      Message 2 (joinRoom ''b1'' (JStr ''B'') JNull), Close 1])))
     \<le> length (sessions (run all_open init (take 4
     [Connect 1, Message 1 (joinRoom ''a1'' (JStr ''A'') JNull), Connect 2,
      Message 2 (joinRoom ''b1'' (JStr ''B'') JNull), Close 1])))"
proof -
  have ok: "run_ok (\<lambda>w. if w = 1 then JStr ''a1'' else JStr ''b1'') all_open init
     [Connect 1, Message 1 (joinRoom ''a1'' (JStr ''A'') JNull), Connect 2,
      Message 2 (joinRoom ''b1'' (JStr ''B'') JNull), Close 1]"
    by (simp add: init_def handleWebSocket_def joinRoom_def on_message_def Let_def
        same_value_def)
  show ?thesis
    using ok sessions_bound_participants [OF ok, of 4] by simp
qed

section \<open>Closing and errors\<close>

text \<open>
  Claim C3 as stated fails: the close listener finds the leaving participant by socket
  reference. Socket 1 joins as \<open>X\<close>, socket 2 joins under the same id and takes the entry
  over; when socket 1 then closes, socket 2 is open and remains in \<open>this.sessions\<close>, yet
  nothing is sent and the entry for \<open>X\<close> stays.
\<close>

theorem close_cleanup_counterexample:
  "on_close all_open 1 (run all_open init
      [Connect 1, Connect 2, Message 1 (joinRoom ''X'' (JStr ''A'') JNull),
       Message 2 (joinRoom ''X'' (JStr ''B'') JNull)])
   = \<lparr>state = \<lparr>sessions = [2],
         participants = [(JStr ''X'', \<lparr>ws = 2, userName = JStr ''B'', trackInfo = JNull\<rparr>)]\<rparr>,
      sent = [], thrown = None\<rparr>"
  by (simp add: init_def handleWebSocket_def joinRoom_def on_message_def Let_def
      same_value_def on_close_def)

text \<open>
  Claim C3, amended. A close removes the socket from \<open>this.sessions\<close>. When no registry
  entry is bound to the closing socket (it never joined, or its id was taken over by
  another socket), the registry is unchanged and no \<open>participantLeft\<close> is sent to anyone.
  When the first entry bound to the closing socket has a non-empty string id, that entry
  is removed and the messages sent are one \<open>participantLeft\<close> with that id for each open
  socket remaining in \<open>this.sessions\<close>; the sessions being pairwise different, every
  remaining open session receives it exactly once and nobody else receives it.
\<close>

theorem close_cleanup:
  "sessions (state (on_close rs w r)) = filter (\<lambda>t. t \<noteq> w) (sessions r)
   \<and> (find (\<lambda>(k, d). ws d = w) (participants r) = None \<longrightarrow>
        participants (state (on_close rs w r)) = participants r
        \<and> sent (on_close rs w r) = [] \<and> thrown (on_close rs w r) = None)
   \<and> (find (\<lambda>(k, d). ws d = w) (participants r) = Some (JStr s, d0) \<and> s \<noteq> [] \<longrightarrow>
        participants (state (on_close rs w r)) = remove1 (JStr s, d0) (participants r)
        \<and> sent (on_close rs w r) =
            map (\<lambda>t. (t, ParticipantLeft (JStr s)))
              (filter (\<lambda>t. rs t = OPEN) (sessions (state (on_close rs w r))))
        \<and> thrown (on_close rs w r) = None
        \<and> (distinct (sessions r) \<longrightarrow>
             (\<forall>t. count_list (sent (on_close rs w r)) (t, ParticipantLeft (JStr s)) =
                  (if t \<in> set (sessions r) \<and> t \<noteq> w \<and> rs t = OPEN then 1 else 0))))"
  by (auto simp: on_close_unbound on_close_bound on_close_sessions count_list_map_pair
      count_list_distinct)

theorem close_cleanup_witness:
  "on_close (all_open(3 := CLOSED)) 1
      \<lparr>sessions = [1, 2, 3, 4],
       participants = [(JStr ''a1'', \<lparr>ws = 1, userName = JStr ''A'', trackInfo = JNull\<rparr>),
                       (JStr ''b1'', \<lparr>ws = 2, userName = JStr ''B'', trackInfo = JNull\<rparr>)]\<rparr>
   = \<lparr>state = \<lparr>sessions = [2, 3, 4],
         participants = [(JStr ''b1'', \<lparr>ws = 2, userName = JStr ''B'', trackInfo = JNull\<rparr>)]\<rparr>,
      sent = [(2, ParticipantLeft (JStr ''a1'')), (4, ParticipantLeft (JStr ''a1''))],
      thrown = None\<rparr>
   \<and> count_list (sent (on_close (all_open(3 := CLOSED)) 1
      \<lparr>sessions = [1, 2, 3, 4],
       participants = [(JStr ''a1'', \<lparr>ws = 1, userName = JStr ''A'', trackInfo = JNull\<rparr>),
                       (JStr ''b1'', \<lparr>ws = 2, userName = JStr ''B'', trackInfo = JNull\<rparr>)]\<rparr>))
        (4, ParticipantLeft (JStr ''a1'')) = 1
   \<and> on_close all_open 4
      \<lparr>sessions = [1, 2, 3, 4],
       participants = [(JStr ''a1'', \<lparr>ws = 1, userName = JStr ''A'', trackInfo = JNull\<rparr>),
                       (JStr ''b1'', \<lparr>ws = 2, userName = JStr ''B'', trackInfo = JNull\<rparr>)]\<rparr>
   = \<lparr>state = \<lparr>sessions = [1, 2, 3],
         participants = [(JStr ''a1'', \<lparr>ws = 1, userName = JStr ''A'', trackInfo = JNull\<rparr>),
                         (JStr ''b1'', \<lparr>ws = 2, userName = JStr ''B'', trackInfo = JNull\<rparr>)]\<rparr>,
      sent = [], thrown = None\<rparr>"
  using close_cleanup
    [of "all_open(3 := CLOSED)" 1
        "\<lparr>sessions = [1, 2, 3, 4],
          participants = [(JStr ''a1'', \<lparr>ws = 1, userName = JStr ''A'', trackInfo = JNull\<rparr>),
                          (JStr ''b1'', \<lparr>ws = 2, userName = JStr ''B'', trackInfo = JNull\<rparr>)]\<rparr>"
        "''a1''" "\<lparr>ws = 1, userName = JStr ''A'', trackInfo = JNull\<rparr>"]
    close_cleanup
    [of all_open 4
        "\<lparr>sessions = [1, 2, 3, 4],
          participants = [(JStr ''a1'', \<lparr>ws = 1, userName = JStr ''A'', trackInfo = JNull\<rparr>),
                          (JStr ''b1'', \<lparr>ws = 2, userName = JStr ''B'', trackInfo = JNull\<rparr>)]\<rparr>"
        "''a1''" "\<lparr>ws = 1, userName = JStr ''A'', trackInfo = JNull\<rparr>"]
  by (simp add: all_open_def on_close_def Let_def)

text \<open>
  Claim C4 as stated fails: the error listener only logs. After sockets 1 and 2 have
  joined, an error event on socket 1 leaves socket 1 in \<open>this.sessions\<close> and its entry in
  the registry, and sends nothing.
\<close>

theorem error_event_no_cleanup_counterexample:
  "dispatch all_open (Error 1) (run all_open init
      [Connect 1, Connect 2, Message 1 (joinRoom ''a1'' (JStr ''A'') JNull),
       Message 2 (joinRoom ''b1'' (JStr ''B'') JNull)])
   = \<lparr>state = \<lparr>sessions = [1, 2],
         participants = [(JStr ''a1'', \<lparr>ws = 1, userName = JStr ''A'', trackInfo = JNull\<rparr>),
                         (JStr ''b1'', \<lparr>ws = 2, userName = JStr ''B'', trackInfo = JNull\<rparr>)]\<rparr>,
      sent = [], thrown = None\<rparr>"
  by (simp add: init_def handleWebSocket_def joinRoom_def on_message_def Let_def
      same_value_def on_error_def)

text \<open>
  Claim C4, amended. A session error event by itself changes nothing and sends nothing:
  the session stays in \<open>this.sessions\<close> and its entry stays in the registry. The cleanup
  is the close listener's alone; a close event that follows the error event does exactly
  what it would have done without it.
\<close>

theorem error_event_no_cleanup:
  "dispatch rs (Error w) r = \<lparr>state = r, sent = [], thrown = None\<rparr>
   \<and> dispatch rs' (Close w) (state (dispatch rs (Error w) r)) = on_close rs' w r"
  by (simp add: on_error_def)

theorem error_event_no_cleanup_witness:
  "dispatch all_open (Close 1) (state (dispatch all_open (Error 1)
      \<lparr>sessions = [1, 2],
       participants = [(JStr ''a1'', \<lparr>ws = 1, userName = JStr ''A'', trackInfo = JNull\<rparr>)]\<rparr>))
   = \<lparr>state = \<lparr>sessions = [2], participants = []\<rparr>,
      sent = [(2, ParticipantLeft (JStr ''a1''))], thrown = None\<rparr>"
  using error_event_no_cleanup
    [of all_open 1
        "\<lparr>sessions = [1, 2],
          participants = [(JStr ''a1'', \<lparr>ws = 1, userName = JStr ''A'', trackInfo = JNull\<rparr>)]\<rparr>"
        all_open]
  by (simp add: all_open_def on_close_def Let_def)




end
